theory Spec2Isabelle
  imports Main "HOL-Library.Word" "HOL-Library.Product_Lexorder"
begin

unbundle bit_operations_syntax

section \<open>Shared vocabulary\<close>

text \<open>
  Python's unbounded integers are \<open>int\<close>; a buffer of bytes is a list of 8-bit words.
  Exceptions are values of \<open>error\<close>; a function that may raise returns \<open>error + 'a\<close>
  with \<open>Inl\<close> for the raise.
\<close>

type_synonym bytes = "8 word list"

datatype error = KeyError | IndexError | RuntimeError | KeyboardInterrupt | UcError | OtherError

section \<open>The recode unit: \<open>refinery/units/encoding/recode.py\<close>\<close>

text \<open>
  \<open>mv[0::2]\<close> and \<open>mv[1::2]\<close>: every second item, starting at offset 0 or offset 1.
\<close>

fun slice_even :: "'a list \<Rightarrow> 'a list" where
  "slice_even [] = []"
| "slice_even [x] = [x]"
| "slice_even (x # y # xs) = x # slice_even xs"

definition slice_odd :: "'a list \<Rightarrow> 'a list" where
  "slice_odd xs = slice_even (drop 1 xs)"

text \<open>Python's \<open>any\<close> over a memoryview of bytes: some item is non-zero.\<close>

definition any_byte :: "bytes \<Rightarrow> bool" where
  "any_byte xs = list_ex (\<lambda>b. b \<noteq> 0) xs"

text \<open>
  \<open>recode.detect\<close>. The chardet library is a parameter: \<open>chardet_detect data\<close> is the
  \<open>'encoding'\<close> entry of what \<open>chardet.detect(data)\<close> returns (which may be \<open>None\<close>).
  The second component of the result records whether chardet was called.
\<close>

definition detect :: "(bytes \<Rightarrow> string option) \<Rightarrow> bytes \<Rightarrow> string option \<times> bool" where
  "detect chardet_detect data =
     (if \<not> any_byte (slice_odd data) then (Some ''utf-16le'', False)
      else if \<not> any_byte (slice_even data) then (Some ''utf-16be'', False)
      else (chardet_detect data, True))"

text \<open>
  \<open>recode.process\<close>, up to the choice of the codec that is handed to \<open>codecs.decode\<close>:
  the \<open>decode\<close> argument when it is given, the result of \<open>detect\<close> otherwise.
\<close>

record recode_args =
  decode :: "string option"
  encode :: string

definition process_codec :: "(bytes \<Rightarrow> string option) \<Rightarrow> recode_args \<Rightarrow> bytes \<Rightarrow> string option \<times> bool" where
  "process_codec chardet_detect args data =
     (case decode args of
        None \<Rightarrow> detect chardet_detect data
      | Some codec \<Rightarrow> (Some codec, False))"

section \<open>The vstack unit: \<open>refinery/units/formats/exe/vstack.py\<close>\<close>

subsection \<open>Collaborators: loader, emulator constants, argument ranges\<close>

text \<open>
  Modelled from the spec: the loader's architecture tags. The enumeration \<open>Arch\<close> of
  \<open>refinery.lib.executable\<close> is not among the sources; its members are the eleven tags that
  the tables of \<open>vstack.py\<close> name, which are the architectures the specification lists.
\<close>

datatype Arch =
  X8632 | X8664 | ARM32 | ARM64 | MIPS16 | MIPS32 | MIPS64 | PPC32 | PPC64 | SPARC32 | SPARC64

text \<open>The constants of the emulator library that the tables mention.\<close>

datatype uc_arch_const = UC_ARCH_X86 | UC_ARCH_ARM | UC_ARCH_MIPS | UC_ARCH_PPC | UC_ARCH_SPARC

datatype uc_mode_const =
  UC_MODE_16 | UC_MODE_32 | UC_MODE_64 | UC_MODE_ARM | UC_MODE_THUMB | UC_MODE_V9

datatype uc_reg_const =
  UC_X86_REG_ESP | UC_X86_REG_RSP | UC_ARM_REG_SP | UC_MIPS_REG_SP | UC_SPARC_REG_SP

text \<open>
  A dictionary literal is an association list in the order it is written; of two entries
  with the same key the later one wins, and looking up a missing key raises \<open>KeyError\<close>.
\<close>

definition dict_lookup :: "('k \<times> 'v) list \<Rightarrow> 'k \<Rightarrow> error + 'v" where
  "dict_lookup d k = (case map_of (rev d) k of None \<Rightarrow> Inl KeyError | Some v \<Rightarrow> Inr v)"

text \<open>
  A range of virtual addresses is half open, \<open>[lower, upper)\<close>. Of the loaded image the
  unit uses the pointer size in bits, the architecture tag, the virtual ranges of the
  segments and the range spanning them; they are what the loader reports.
\<close>

record Range =
  lower :: int
  upper :: int

definition contains :: "Range \<Rightarrow> int \<Rightarrow> bool" where
  "contains r a = (lower r \<le> a \<and> a < upper r)"

record Executable =
  pointer_size :: nat
  arch :: Arch
  segments :: "Range list"
  image_defined_address_space :: Range

text \<open>
  Modelled from the spec: \<open>align\<close> of \<open>refinery.lib.executable\<close> is not among the sources.
  \<open>align alignment v False\<close> is the specification's \<open>align_up\<close>, the least multiple of the
  alignment that is at least \<open>v\<close>, and \<open>align alignment v True\<close> its \<open>align_down\<close>, the
  greatest multiple that is at most \<open>v\<close>. An alignment below 2 leaves the value unchanged.
\<close>

definition align :: "int \<Rightarrow> int \<Rightarrow> bool \<Rightarrow> int" where
  "align alignment v down =
     (if alignment \<ge> 2 then
        (let incomplete_chunk_count = v div alignment;
             padding = v mod alignment
         in alignment *
              (if \<not> down \<and> padding \<noteq> 0 then incomplete_chunk_count + 1
               else incomplete_chunk_count))
      else v)"

text \<open>
  The arguments of the unit. \<open>size in bounds[self.args.write_range]\<close> is membership in a
  range given by the user; \<open>bounds\<close> of \<open>refinery.lib.types\<close> is not among the sources, so
  the two ranges are predicates on sizes.
\<close>

record vstack_args =
  args_stop :: "int option"
  patch_range :: "int \<Rightarrow> bool"
  write_range :: "int \<Rightarrow> bool"
  wait :: int
  calls_wait :: bool
  stack_size :: int
  block_size :: int

subsection \<open>The interval container\<close>

text \<open>
  Modelled from the spec: the \<open>intervaltree\<close> library is not among the sources. An interval
  is the pair of its begin and its end; the container holds each interval once. \<open>addi\<close>
  stores an interval. \<open>merge_overlaps\<close> sorts the intervals and joins each one to its
  predecessor when the two overlap, that is when it begins before the predecessor ends;
  intervals that only share an endpoint stay apart, which is why the unit stores a write
  with its end moved up by one. Iterating the container yields the list as it stands.
\<close>

type_synonym interval = "int \<times> int"

type_synonym IntervalTree = "interval list"

definition addi :: "IntervalTree \<Rightarrow> int \<Rightarrow> int \<Rightarrow> IntervalTree" where
  "addi tree b e = (if (b, e) \<in> set tree then tree else tree @ [(b, e)])"

fun merge_step :: "interval list \<Rightarrow> interval \<Rightarrow> interval list" where
  "merge_step [] higher = [higher]"
| "merge_step (lowr # merged) higher =
     (if fst higher < snd lowr then (fst lowr, max (snd lowr) (snd higher)) # merged
      else higher # lowr # merged)"

definition merge_overlaps :: "IntervalTree \<Rightarrow> IntervalTree" where
  "merge_overlaps tree = rev (foldl merge_step [] (sort tree))"

subsection \<open>Architecture tables\<close>

text \<open>\<open>vstack._uc_arch\<close>.\<close>

definition uc_arch_table :: "(Arch \<times> uc_arch_const \<times> uc_mode_const) list" where
  "uc_arch_table =
     [(X8632,   (UC_ARCH_X86,   UC_MODE_32)),
      (X8664,   (UC_ARCH_X86,   UC_MODE_64)),
      (ARM32,   (UC_ARCH_ARM,   UC_MODE_ARM)),
      (ARM64,   (UC_ARCH_ARM,   UC_MODE_THUMB)),
      (MIPS16,  (UC_ARCH_MIPS,  UC_MODE_16)),
      (MIPS32,  (UC_ARCH_MIPS,  UC_MODE_32)),
      (MIPS64,  (UC_ARCH_MIPS,  UC_MODE_64)),
      (PPC32,   (UC_ARCH_PPC,   UC_MODE_32)),
      (PPC64,   (UC_ARCH_PPC,   UC_MODE_64)),
      (SPARC32, (UC_ARCH_SPARC, UC_MODE_32)),
      (SPARC64, (UC_ARCH_SPARC, UC_MODE_V9))]"

definition uc_arch :: "Arch \<Rightarrow> error + (uc_arch_const \<times> uc_mode_const)" where
  "uc_arch a = dict_lookup uc_arch_table a"

text \<open>The stack-pointer table of \<open>vstack.process\<close>, with its second \<open>ARM32\<close> line.\<close>

definition sp_table :: "(Arch \<times> uc_reg_const) list" where
  "sp_table =
     [(X8632,   UC_X86_REG_ESP),
      (X8664,   UC_X86_REG_RSP),
      (ARM32,   UC_ARM_REG_SP),
      (ARM32,   UC_ARM_REG_SP),
      (MIPS16,  UC_MIPS_REG_SP),
      (MIPS32,  UC_MIPS_REG_SP),
      (MIPS64,  UC_MIPS_REG_SP),
      (SPARC32, UC_SPARC_REG_SP),
      (SPARC64, UC_SPARC_REG_SP)]"

text \<open>
  The start of the loop body of \<open>vstack.process\<close>: the emulator is created for the
  architecture, then the stack-pointer register is looked up.
\<close>

definition resolve_sp :: "Arch \<Rightarrow> error + uc_reg_const" where
  "resolve_sp a =
     (case uc_arch a of
        Inl e \<Rightarrow> Inl e
      | Inr _ \<Rightarrow> dict_lookup sp_table a)"

subsection \<open>Placing the stack\<close>

text \<open>\<open>vstack._find_stack_location\<close>; \<open>1 << exe.pointer_size\<close> is \<open>2 ^ pointer_size\<close>.\<close>

definition find_stack_location :: "vstack_args \<Rightarrow> Executable \<Rightarrow> error + int" where
  "find_stack_location args exe =
     (let stack_size = stack_size args;
          memory_max = 2 ^ pointer_size exe;
          space = image_defined_address_space exe;
          aligned = align stack_size (upper space) False
      in if aligned + stack_size < memory_max then Inr aligned
         else
           (let aligned = align stack_size (lower space - stack_size) True
            in if aligned > 0 then Inr aligned
               else Inl RuntimeError))"

subsection \<open>The emulation state and the hooks\<close>

text \<open>
  \<open>EmuState\<close>. The fields \<open>executable\<close> and \<open>disassembler\<close> serve the log messages and
  \<open>disassemble\<close> only; whether \<open>disassemble\<close> yields an instruction is an input of the
  code hook below.
\<close>

record EmuState =
  writes :: IntervalTree
  address :: int
  waiting :: int
  callstack :: "int list"
  retaddr :: "int option"
  stop :: "int option"
  previous_address :: int
  sp_register :: uc_reg_const
  stack_ceiling :: int

text \<open>
  Lines 216 to 223 of \<open>vstack._hook_mem_write\<close>: a write of the address that is expected
  to execute next is taken for the push of a return address. \<open>reg_read\<close> is the emulator's
  register file at the time of the call. The call stack grows at its end.
\<close>

definition call_detection :: "(uc_reg_const \<Rightarrow> int) \<Rightarrow> int \<Rightarrow> EmuState \<Rightarrow> EmuState" where
  "call_detection reg_read unsigned_value state =
     (if unsigned_value = address state then
        (let state = (if callstack state = []
                      then state\<lparr>stack_ceiling := reg_read (sp_register state)\<rparr>
                      else state)
         in state\<lparr>retaddr := Some unsigned_value,
                  callstack := callstack state @ [unsigned_value]\<rparr>)
      else state\<lparr>retaddr := None\<rparr>)"

text \<open>Line 225: \<open>address in range(state.stack_ceiling - 0x200, state.stack_ceiling)\<close>.\<close>

definition ceiling_suppressed :: "EmuState \<Rightarrow> int \<Rightarrow> bool" where
  "ceiling_suppressed state addr =
     (stack_ceiling state > 0 \<and> stack_ceiling state - 0x200 \<le> addr \<and> addr < stack_ceiling state)"

text \<open>Lines 233 and 234: the write is stored with its end moved up by one, then merged.\<close>

definition tracker_add :: "IntervalTree \<Rightarrow> int \<Rightarrow> nat \<Rightarrow> IntervalTree" where
  "tracker_add tree addr sz = merge_overlaps (addi tree addr (addr + int sz + 1))"

text \<open>
  \<open>vstack._hook_mem_write\<close>. The emulator passes the size of the access in bytes, a
  natural number; \<open>value & mask\<close> is the bitwise conjunction of Python's integers.
\<close>

definition hook_mem_write ::
  "vstack_args \<Rightarrow> (uc_reg_const \<Rightarrow> int) \<Rightarrow> int \<Rightarrow> nat \<Rightarrow> int \<Rightarrow> EmuState \<Rightarrow> EmuState" where
  "hook_mem_write args reg_read addr sz value state =
     (let mask = 2 ^ (sz * 8) - 1;
          unsigned_value = value AND mask;
          state = call_detection reg_read unsigned_value state
      in if ceiling_suppressed state addr then state
         else
           (let state = state\<lparr>waiting := 0\<rparr>
            in if \<not> write_range args (int sz) then state
               else state\<lparr>writes := tracker_add (writes state) addr sz\<rparr>))"

text \<open>
  Lines 265 to 278 of \<open>vstack._hook_code\<close>: the bookkeeping of the shadow call stack.
  \<open>pc\<close> is the address about to execute and \<open>depth\<close> the local variable of that name.
  \<open>callstack.pop()\<close> on an empty list raises \<open>IndexError\<close>.
\<close>

definition call_tracking :: "int \<Rightarrow> nat \<Rightarrow> EmuState \<Rightarrow> error + (nat \<times> EmuState)" where
  "call_tracking pc depth state =
     (if pc \<noteq> address state then
        (let (depth, state) =
               (if depth \<noteq> 0 \<and> pc = last (callstack state) then
                  (let depth = depth - 1;
                       state = state\<lparr>callstack := butlast (callstack state)\<rparr>
                   in (depth, if depth = 0 then state\<lparr>stack_ceiling := 0\<rparr> else state))
                else (depth, state))
         in Inr (depth, state\<lparr>address := pc\<rparr>))
      else if retaddr state \<noteq> None then
        (if callstack state = [] then Inl IndexError
         else Inr (depth, state\<lparr>callstack := butlast (callstack state), retaddr := None\<rparr>))
      else Inr (depth, state))"

text \<open>
  \<open>vstack._hook_code\<close>. The result is the new state and whether \<open>emu.emu_stop()\<close> was
  called. \<open>decodes\<close> says whether \<open>state.disassemble(address, size)\<close> yields an instruction.
  \<open>interrupt\<close> says that the host raises \<open>KeyboardInterrupt\<close> on entry to the \<open>try\<close> block;
  the handler of the block then stops the emulator and returns.
\<close>

definition hook_code ::
  "vstack_args \<Rightarrow> bool \<Rightarrow> int \<Rightarrow> nat \<Rightarrow> bool \<Rightarrow> EmuState \<Rightarrow> error + (EmuState \<times> bool)" where
  "hook_code args interrupt pc sz decodes state =
     (if Some pc = stop state then Inr (state, True)
      else if interrupt then Inr (state, True)
      else
        (let waiting_local = waiting state;
             depth = length (callstack state);
             state = state\<lparr>previous_address := address state\<rparr>
         in case call_tracking pc depth state of
              Inl e \<Rightarrow> Inl e
            | Inr (depth, state) \<Rightarrow>
                if waiting_local > wait args then Inr (state, True)
                else
                  (let state = (if depth = 0 \<or> \<not> calls_wait args
                                then state\<lparr>waiting := waiting state + 1\<rparr>
                                else state);
                       state = state\<lparr>address := address state + int sz\<rparr>
                   in Inr (state, \<not> decodes))))"

subsection \<open>The emulator as a sequence of hook calls\<close>

text \<open>
  Modelled from the spec: the emulator is an external collaborator that executes
  instructions and dispatches the hooks. One run of \<open>emu_start\<close> is the sequence of events
  it produces: before each instruction the code hook (with the address and the size of the
  instruction, whether it disassembles, and whether the host interrupts the hook), for each
  store of the instruction the memory-write hook (with the address, the size, the value and
  the register file), and possibly a runtime error of the emulator. A call of \<open>emu_stop\<close>
  ends the run before the instruction executes. The run ends in one of three ways.
\<close>

datatype event =
  Insn int nat bool bool
| MemWrite int nat int "uc_reg_const \<Rightarrow> int"
| Fault

datatype run_end = Finished | Halted | Raised error

text \<open>
  The result of a run: the state that the hooks have left, the number of instructions
  that were executed, and how the run ended. An exception that leaves a hook other than
  through its handler leaves \<open>emu_start\<close> as well.
\<close>

fun emu_start :: "vstack_args \<Rightarrow> EmuState \<Rightarrow> event list \<Rightarrow> EmuState \<times> nat \<times> run_end" where
  "emu_start args state [] = (state, 0, Finished)"
| "emu_start args state (Insn pc sz decodes interrupt # evs) =
     (case hook_code args interrupt pc sz decodes state of
        Inl e \<Rightarrow> (state, 0, Raised e)
      | Inr (state', stopped) \<Rightarrow>
          if stopped then (state', 0, Halted)
          else (case emu_start args state' evs of (s, n, t) \<Rightarrow> (s, Suc n, t)))"
| "emu_start args state (MemWrite addr sz value reg_read # evs) =
     emu_start args (hook_mem_write args reg_read addr sz value state) evs"
| "emu_start args state (Fault # evs) = (state, 0, Raised UcError)"

subsection \<open>The driver\<close>

text \<open>
  Lines 174 to 186 of \<open>vstack.process\<close>: each segment is mapped and written; \<open>outcome\<close>
  tells for a segment whether the emulator raises while doing so, and what.
\<close>

fun map_segments :: "int \<Rightarrow> (Range \<Rightarrow> error option) \<Rightarrow> Range list \<Rightarrow> error + unit" where
  "map_segments addr outcome [] = Inr ()"
| "map_segments addr outcome (vmem # segs) =
     (case outcome vmem of
        None \<Rightarrow> map_segments addr outcome segs
      | Some e \<Rightarrow>
          if e = KeyboardInterrupt then Inl e
          else if contains vmem addr then Inl e
          else map_segments addr outcome segs)"

text \<open>\<open>emulator.mem_read(begin, size)\<close> on the memory of the emulator.\<close>

definition mem_read :: "(int \<Rightarrow> 8 word) \<Rightarrow> int \<Rightarrow> int \<Rightarrow> bytes" where
  "mem_read mem b n = map (\<lambda>i. mem (b + int i)) [0..<nat n]"

text \<open>Lines 203 to 209: the loop over the intervals that yields the patches.\<close>

fun harvest :: "vstack_args \<Rightarrow> (int \<Rightarrow> 8 word) \<Rightarrow> interval list \<Rightarrow> bytes list" where
  "harvest args mem [] = []"
| "harvest args mem (interval # it) =
     (let size_local = snd interval - fst interval - 1
      in if \<not> patch_range args size_local then harvest args mem it
         else mem_read mem (fst interval) size_local # harvest args mem it)"

text \<open>Line 189: the state with which the emulation of an entry point begins.\<close>

definition initial_state :: "vstack_args \<Rightarrow> uc_reg_const \<Rightarrow> int \<Rightarrow> EmuState" where
  "initial_state args sp addr =
     \<lparr>writes = [], address = addr, waiting = 0, callstack = [], retaddr = None,
      stop = args_stop args, previous_address = 0, sp_register = sp, stack_ceiling = 0\<rparr>"

text \<open>
  What the emulator does for one entry point: the outcome of mapping each segment, the
  events of the run, and the memory when the run has ended.
\<close>

record emulation =
  map_outcome :: "Range \<Rightarrow> error option"
  trace :: "event list"
  memory :: "int \<Rightarrow> 8 word"

text \<open>
  The body of the loop over the entry points in \<open>vstack.process\<close>: the patches it yields,
  or the exception that leaves it. \<open>UcError\<close> from \<open>emu_start\<close> is caught; any other
  exception propagates. The calls that map the stack, seed the registers and install the
  hooks, and the look-up of the end of the code, go to the collaborators and return nothing
  that the rest depends on; they are left out.
\<close>

definition process_entry :: "vstack_args \<Rightarrow> Executable \<Rightarrow> emulation \<Rightarrow> int \<Rightarrow> error + bytes list" where
  "process_entry args exe emu addr =
     (case resolve_sp (arch exe) of
        Inl e \<Rightarrow> Inl e
      | Inr sp \<Rightarrow>
          (case map_segments addr (map_outcome emu) (segments exe) of
             Inl e \<Rightarrow> Inl e
           | Inr _ \<Rightarrow>
               (case emu_start args (initial_state args sp addr) (trace emu) of
                  (state, n, t) \<Rightarrow>
                    (case t of
                       Raised e \<Rightarrow>
                         if e = UcError then Inr (harvest args (memory emu) (writes state))
                         else Inl e
                     | _ \<Rightarrow> Inr (harvest args (memory emu) (writes state))))))"

subsection \<open>Vocabulary of the properties\<close>

text \<open>
  The interval set after a sequence of recorded writes, each given by its address and its
  size, starting from the empty set.
\<close>

definition record_writes :: "(int \<times> nat) list \<Rightarrow> IntervalTree" where
  "record_writes ws = foldl (\<lambda>tree (addr, sz). tracker_add tree addr sz) [] ws"

text \<open>
  A run in which nothing but the waiting counter can end the emulation and nothing resets
  the counter: every instruction disassembles, is not the stop address and is not
  interrupted, the code hook raises no exception, every memory write falls into the
  suppressed range below the ceiling, and the emulator raises no error.
\<close>

fun quiet :: "vstack_args \<Rightarrow> EmuState \<Rightarrow> event list \<Rightarrow> bool" where
  "quiet args state [] = True"
| "quiet args state (Insn pc sz decodes interrupt # evs) =
     (decodes \<and> \<not> interrupt \<and> Some pc \<noteq> stop state \<and>
      (case hook_code args interrupt pc sz decodes state of
         Inl e \<Rightarrow> False
       | Inr (state', stopped) \<Rightarrow> quiet args state' evs))"
| "quiet args state (MemWrite addr sz value reg_read # evs) =
     (ceiling_suppressed (call_detection reg_read (value AND (2 ^ (sz * 8) - 1)) state) addr \<and>
      quiet args (hook_mem_write args reg_read addr sz value state) evs)"
| "quiet args state (Fault # evs) = False"

text \<open>The number of instructions that a sequence of events offers.\<close>

fun is_insn :: "event \<Rightarrow> bool" where
  "is_insn (Insn pc sz decodes interrupt) = True"
| "is_insn _ = False"

definition insn_count :: "event list \<Rightarrow> nat" where
  "insn_count evs = length (filter is_insn evs)"

text \<open>The defaults of the arguments, from the signature of \<open>vstack.__init__\<close>.\<close>

definition default_args :: vstack_args where
  "default_args =
     \<lparr>args_stop = None, patch_range = (\<lambda>n. 5 \<le> n), write_range = (\<lambda>n. 1 \<le> n),
      wait = 10, calls_wait = False, stack_size = 0x10000, block_size = 0x1000\<rparr>"

section \<open>Properties of the recode unit\<close>

lemma set_slice_even:
  "set (slice_even xs) = {xs ! i | i. i < length xs \<and> even i}"
proof (induction xs rule: slice_even.induct)
  case 1
  show ?case by simp
next
  case (2 x)
  show ?case by auto
next
  case (3 x y xs)
  have "{(x # y # xs) ! i | i. i < length (x # y # xs) \<and> even i}
        = insert x {xs ! i | i. i < length xs \<and> even i}" (is "?L = ?R")
  proof (rule set_eqI, rule iffI)
    fix v assume "v \<in> ?L"
    then obtain i where i: "v = (x # y # xs) ! i" "i < length (x # y # xs)" "even i"
      by blast
    show "v \<in> ?R"
    proof (cases "i = 0")
      case True
      with i show ?thesis by simp
    next
      case False
      then obtain k where k: "i = Suc k" by (cases i) auto
      with i have "k \<noteq> 0" by (cases k) auto
      then obtain j where "k = Suc j" by (cases k) auto
      with k have j: "i = Suc (Suc j)" by simp
      with i have "v = xs ! j" "j < length xs" "even j" by simp_all
      then show ?thesis by blast
    qed
  next
    fix v assume "v \<in> ?R"
    then consider "v = x" | j where "v = xs ! j" "j < length xs" "even j"
      by blast
    then show "v \<in> ?L"
    proof cases
      case 1
      then have "v = (x # y # xs) ! 0 \<and> 0 < length (x # y # xs) \<and> even (0::nat)" by simp
      then show ?thesis by blast
    next
      case 2
      then have "v = (x # y # xs) ! Suc (Suc j) \<and> Suc (Suc j) < length (x # y # xs)
                 \<and> even (Suc (Suc j))" by simp
      then show ?thesis by blast
    qed
  qed
  with 3 show ?case by simp
qed

lemma set_slice_odd:
  "set (slice_odd xs) = {xs ! i | i. i < length xs \<and> odd i}"
proof (cases xs)
  case Nil
  then show ?thesis by (simp add: slice_odd_def)
next
  case (Cons x ys)
  have "{ys ! i | i. i < length ys \<and> even i} = {(x # ys) ! i | i. i < length (x # ys) \<and> odd i}"
    (is "?L = ?R")
  proof (rule set_eqI, rule iffI)
    fix v assume "v \<in> ?L"
    then obtain i where "v = ys ! i" "i < length ys" "even i" by blast
    then have "v = (x # ys) ! Suc i \<and> Suc i < length (x # ys) \<and> odd (Suc i)" by simp
    then show "v \<in> ?R" by blast
  next
    fix v assume "v \<in> ?R"
    then obtain i where i: "v = (x # ys) ! i" "i < length (x # ys)" "odd i" by blast
    then obtain j where "i = Suc j" by (cases i) auto
    with i have "v = ys ! j" "j < length ys" "even j" by simp_all
    then show "v \<in> ?L" by blast
  qed
  with Cons show ?thesis by (simp add: slice_odd_def set_slice_even)
qed

lemma no_odd_byte:
  "(\<not> any_byte (slice_odd data)) = (\<forall>i<length data. odd i \<longrightarrow> data ! i = 0)"
  by (auto simp: any_byte_def list_ex_iff set_slice_odd)

lemma no_even_byte:
  "(\<not> any_byte (slice_even data)) = (\<forall>i<length data. even i \<longrightarrow> data ! i = 0)"
  by (auto simp: any_byte_def list_ex_iff set_slice_even)

text \<open>
  Claim C10. When no decode encoding is given, the codec is chosen by two tests in this
  order: if every byte at an odd offset is zero (which holds for the empty input and for
  an all-zero input) the codec is utf-16le and chardet is not called; otherwise, if every
  byte at an even offset is zero, the codec is utf-16be and chardet is not called; only when
  both tests fail is chardet called, and its answer is the codec.
\<close>

theorem recode_detect_order:
  assumes "decode args = None"
  shows "((\<forall>i<length data. odd i \<longrightarrow> data ! i = 0) \<longrightarrow>
            process_codec chardet_detect args data = (Some ''utf-16le'', False))
       \<and> (\<not> (\<forall>i<length data. odd i \<longrightarrow> data ! i = 0) \<and> (\<forall>i<length data. even i \<longrightarrow> data ! i = 0) \<longrightarrow>
            process_codec chardet_detect args data = (Some ''utf-16be'', False))
       \<and> (\<not> (\<forall>i<length data. odd i \<longrightarrow> data ! i = 0) \<and> \<not> (\<forall>i<length data. even i \<longrightarrow> data ! i = 0) \<longrightarrow>
            process_codec chardet_detect args data = (chardet_detect data, True))"
proof -
  let ?odd0 = "\<forall>i<length data. odd i \<longrightarrow> data ! i = 0"
  let ?even0 = "\<forall>i<length data. even i \<longrightarrow> data ! i = 0"
  have pc: "process_codec chardet_detect args data = detect chardet_detect data"
    using assms by (simp add: process_codec_def)
  have le: "detect chardet_detect data = (Some ''utf-16le'', False)" if "?odd0"
  proof -
    from that have "\<not> any_byte (slice_odd data)" by (simp only: no_odd_byte)
    then show ?thesis by (simp add: detect_def)
  qed
  have be: "detect chardet_detect data = (Some ''utf-16be'', False)" if "\<not> ?odd0" "?even0"
  proof -
    from that have "any_byte (slice_odd data)" "\<not> any_byte (slice_even data)"
      using no_odd_byte [of data] no_even_byte [of data] by blast+
    then show ?thesis by (simp add: detect_def)
  qed
  have guess: "detect chardet_detect data = (chardet_detect data, True)" if "\<not> ?odd0" "\<not> ?even0"
  proof -
    from that have "any_byte (slice_odd data)" "any_byte (slice_even data)"
      using no_odd_byte [of data] no_even_byte [of data] by blast+
    then show ?thesis by (simp add: detect_def)
  qed
  from le be guess show ?thesis unfolding pc by blast
qed

theorem recode_detect_order_witness:
  "decode \<lparr>decode = None, encode = ''utf8''\<rparr> = None
   \<and> \<not> any_byte (slice_odd [65, 0, 66, 0])
   \<and> process_codec (\<lambda>_. Some ''ascii'') \<lparr>decode = None, encode = ''utf8''\<rparr> [65, 0, 66, 0]
       = (Some ''utf-16le'', False)
   \<and> any_byte (slice_odd [0, 65, 0, 66]) \<and> \<not> any_byte (slice_even [0, 65, 0, 66])
   \<and> process_codec (\<lambda>_. Some ''ascii'') \<lparr>decode = None, encode = ''utf8''\<rparr> [0, 65, 0, 66]
       = (Some ''utf-16be'', False)
   \<and> any_byte (slice_odd [65, 66]) \<and> any_byte (slice_even [65, 66])
   \<and> process_codec (\<lambda>_. Some ''ascii'') \<lparr>decode = None, encode = ''utf8''\<rparr> [65, 66]
       = (Some ''ascii'', True)
   \<and> process_codec (\<lambda>_. Some ''ascii'') \<lparr>decode = None, encode = ''utf8''\<rparr> []
       = (Some ''utf-16le'', False)
   \<and> process_codec (\<lambda>_. Some ''ascii'') \<lparr>decode = None, encode = ''utf8''\<rparr> [0, 0, 0]
       = (Some ''utf-16le'', False)"
proof -
  let ?args = "\<lparr>decode = None, encode = ''utf8''\<rparr>"
  have d: "decode ?args = None" by simp
  have a1: "\<forall>i<length ([65, 0, 66, 0] :: bytes). odd i \<longrightarrow> [65, 0, 66, 0 :: 8 word] ! i = 0"
    unfolding no_odd_byte [symmetric] by (simp add: any_byte_def slice_odd_def)
  have b1: "\<not> (\<forall>i<length ([0, 65, 0, 66] :: bytes). odd i \<longrightarrow> [0, 65, 0, 66 :: 8 word] ! i = 0)"
    unfolding no_odd_byte [symmetric] by (simp add: any_byte_def slice_odd_def)
  have b2: "\<forall>i<length ([0, 65, 0, 66] :: bytes). even i \<longrightarrow> [0, 65, 0, 66 :: 8 word] ! i = 0"
    unfolding no_even_byte [symmetric] by (simp add: any_byte_def)
  have c1: "\<not> (\<forall>i<length ([65, 66] :: bytes). odd i \<longrightarrow> [65, 66 :: 8 word] ! i = 0)"
    unfolding no_odd_byte [symmetric] by (simp add: any_byte_def slice_odd_def)
  have c2: "\<not> (\<forall>i<length ([65, 66] :: bytes). even i \<longrightarrow> [65, 66 :: 8 word] ! i = 0)"
    unfolding no_even_byte [symmetric] by (simp add: any_byte_def)
  note r = recode_detect_order [OF d, of _ "\<lambda>_. Some ''ascii''"]
  from r [of "[65, 0, 66, 0]"] a1
  have A: "process_codec (\<lambda>_. Some ''ascii'') ?args [65, 0, 66, 0] = (Some ''utf-16le'', False)"
    by blast
  from r [of "[0, 65, 0, 66]"] b1 b2
  have B: "process_codec (\<lambda>_. Some ''ascii'') ?args [0, 65, 0, 66] = (Some ''utf-16be'', False)"
    by blast
  from r [of "[65, 66]"] c1 c2
  have C: "process_codec (\<lambda>_. Some ''ascii'') ?args [65, 66] = (Some ''ascii'', True)"
    by blast
  have e: "\<not> any_byte (slice_odd [65, 0, 66, 0])"
    "any_byte (slice_odd [0, 65, 0, 66])" "\<not> any_byte (slice_even [0, 65, 0, 66])"
    "any_byte (slice_odd [65, 66])" "any_byte (slice_even [65, 66])"
    by (simp_all add: any_byte_def slice_odd_def)
  have z1: "\<forall>i<length ([] :: bytes). odd i \<longrightarrow> ([] :: bytes) ! i = 0"
    by simp
  have z2: "\<forall>i<length ([0, 0, 0] :: bytes). odd i \<longrightarrow> [0, 0, 0 :: 8 word] ! i = 0"
    unfolding no_odd_byte [symmetric] by (simp add: any_byte_def slice_odd_def)
  from r [of "[]"] z1
  have D: "process_codec (\<lambda>_. Some ''ascii'') ?args [] = (Some ''utf-16le'', False)"
    by blast
  from r [of "[0, 0, 0]"] z2
  have E: "process_codec (\<lambda>_. Some ''ascii'') ?args [0, 0, 0] = (Some ''utf-16le'', False)"
    by blast
  from d A B C D E e show ?thesis by blast
qed

section \<open>Properties of the vstack unit\<close>

subsection \<open>The memory-write hook\<close>

lemma call_detection_keeps [simp]:
  "writes (call_detection reg_read v state) = writes state"
  "waiting (call_detection reg_read v state) = waiting state"
  "address (call_detection reg_read v state) = address state"
  "stop (call_detection reg_read v state) = stop state"
  by (simp_all add: call_detection_def Let_def)

lemma call_detection_ceiling:
  "stack_ceiling (call_detection reg_read v state) =
     (if v = address state \<and> callstack state = [] then reg_read (sp_register state)
      else stack_ceiling state)"
  by (simp add: call_detection_def Let_def)

lemma hook_mem_write_suppressed:
  "ceiling_suppressed (call_detection reg_read (value AND (2 ^ (sz * 8) - 1)) state) addr \<Longrightarrow>
   hook_mem_write args reg_read addr sz value state
     = call_detection reg_read (value AND (2 ^ (sz * 8) - 1)) state"
  by (simp add: hook_mem_write_def Let_def)

lemma hook_mem_write_not_suppressed:
  "\<not> ceiling_suppressed (call_detection reg_read (value AND (2 ^ (sz * 8) - 1)) state) addr \<Longrightarrow>
   hook_mem_write args reg_read addr sz value state
     = (let state = (call_detection reg_read (value AND (2 ^ (sz * 8) - 1)) state)\<lparr>waiting := 0\<rparr>
        in if \<not> write_range args (int sz) then state
           else state\<lparr>writes := tracker_add (writes state) addr sz\<rparr>)"
  by (simp add: hook_mem_write_def Let_def)

text \<open>
  Claim C8. The ceiling that the hook tests is the stored \<open>stack_ceiling\<close>, or the stack
  pointer just captured when this very write opens the outermost call. If that ceiling is
  positive and the address of the write lies in the half-open range from the ceiling minus
  \<open>0x200\<close> to the ceiling, the hook returns without adding the write to the interval set
  and without touching the waiting counter.
\<close>

theorem ceiling_suppression:
  assumes "ceiling = (if value AND (2 ^ (sz * 8) - 1) = address state \<and> callstack state = []
                      then reg_read (sp_register state) else stack_ceiling state)"
      and "ceiling > 0" and "ceiling - 0x200 \<le> addr" and "addr < ceiling"
  shows "writes (hook_mem_write args reg_read addr sz value state) = writes state
       \<and> waiting (hook_mem_write args reg_read addr sz value state) = waiting state"
proof -
  have "ceiling_suppressed (call_detection reg_read (value AND (2 ^ (sz * 8) - 1)) state) addr"
    using assms by (simp add: ceiling_suppressed_def call_detection_ceiling)
  then show ?thesis by (simp add: hook_mem_write_suppressed)
qed

theorem ceiling_suppression_witness:
  "writes (hook_mem_write default_args (\<lambda>_. 0x42FF00) 0x42FFF8 4 0
      \<lparr>writes = [(0x42FE00, 0x42FE07)], address = 0x401003, waiting = 3, callstack = [0x401020],
       retaddr = None, stop = None, previous_address = 0x401002,
       sp_register = UC_X86_REG_ESP, stack_ceiling = 0x430000\<rparr>) = [(0x42FE00, 0x42FE07)]
   \<and> waiting (hook_mem_write default_args (\<lambda>_. 0x42FF00) 0x42FFF8 4 0
      \<lparr>writes = [(0x42FE00, 0x42FE07)], address = 0x401003, waiting = 3, callstack = [0x401020],
       retaddr = None, stop = None, previous_address = 0x401002,
       sp_register = UC_X86_REG_ESP, stack_ceiling = 0x430000\<rparr>) = 3"
  using ceiling_suppression [of "0x430000" 0 4
      "\<lparr>writes = [(0x42FE00, 0x42FE07)], address = 0x401003, waiting = 3, callstack = [0x401020],
       retaddr = None, stop = None, previous_address = 0x401002,
       sp_register = UC_X86_REG_ESP, stack_ceiling = 0x430000\<rparr>" "\<lambda>_. 0x42FF00" "0x42FFF8" default_args]
  by simp

text \<open>
  Claim C2, as the code has it. A write whose size lies outside \<open>write_range\<close> and whose
  address is not in the suppressed range below the ceiling adds nothing to the interval
  set, but it does reset the waiting counter to zero: the reset comes before the test of
  the size.
\<close>

theorem out_of_range_write_resets_waiting:
  assumes "ceiling = (if value AND (2 ^ (sz * 8) - 1) = address state \<and> callstack state = []
                      then reg_read (sp_register state) else stack_ceiling state)"
      and "\<not> (ceiling > 0 \<and> ceiling - 0x200 \<le> addr \<and> addr < ceiling)"
      and "\<not> write_range args (int sz)"
  shows "writes (hook_mem_write args reg_read addr sz value state) = writes state
       \<and> waiting (hook_mem_write args reg_read addr sz value state) = 0"
proof -
  have "\<not> ceiling_suppressed (call_detection reg_read (value AND (2 ^ (sz * 8) - 1)) state) addr"
    using assms(1,2) by (simp add: ceiling_suppressed_def call_detection_ceiling)
  then show ?thesis using assms(3) by (simp add: hook_mem_write_not_suppressed Let_def)
qed

theorem out_of_range_write_resets_waiting_witness:
  "\<not> write_range (default_args\<lparr>write_range := (\<lambda>n. 4 \<le> n)\<rparr>) (int 1)
   \<and> writes (hook_mem_write (default_args\<lparr>write_range := (\<lambda>n. 4 \<le> n)\<rparr>) (\<lambda>_. 0x430000) 0x42F000 1 0x41
      \<lparr>writes = [], address = 0x401003, waiting = 3, callstack = [],
       retaddr = None, stop = None, previous_address = 0x401000,
       sp_register = UC_X86_REG_ESP, stack_ceiling = 0\<rparr>) = []
   \<and> waiting (hook_mem_write (default_args\<lparr>write_range := (\<lambda>n. 4 \<le> n)\<rparr>) (\<lambda>_. 0x430000) 0x42F000 1 0x41
      \<lparr>writes = [], address = 0x401003, waiting = 3, callstack = [],
       retaddr = None, stop = None, previous_address = 0x401000,
       sp_register = UC_X86_REG_ESP, stack_ceiling = 0\<rparr>) = 0"
  using out_of_range_write_resets_waiting [of 0 "0x41" 1
      "\<lparr>writes = [], address = 0x401003, waiting = 3, callstack = [],
       retaddr = None, stop = None, previous_address = 0x401000,
       sp_register = UC_X86_REG_ESP, stack_ceiling = 0\<rparr>" "\<lambda>_. 0x430000" "0x42F000"
      "default_args\<lparr>write_range := (\<lambda>n. 4 \<le> n)\<rparr>"]
  by (simp add: default_args_def)

text \<open>
  Claim C2 as stated fails: a one-byte write, with \<open>write_range\<close> starting at four bytes and
  no ceiling in force, changes the waiting counter from 3 to 0.
\<close>

theorem out_of_range_write_changes_waiting:
  "\<not> write_range (default_args\<lparr>write_range := (\<lambda>n. 4 \<le> n)\<rparr>) (int 1)
   \<and> \<not> ceiling_suppressed (call_detection (\<lambda>_. 0x430000) (0x41 AND (2 ^ (1 * 8) - 1))
      \<lparr>writes = [], address = 0x401003, waiting = 3, callstack = [],
       retaddr = None, stop = None, previous_address = 0x401000,
       sp_register = UC_X86_REG_ESP, stack_ceiling = 0\<rparr>) 0x42F000
   \<and> waiting \<lparr>writes = [], address = 0x401003, waiting = 3, callstack = [],
       retaddr = None, stop = None, previous_address = 0x401000,
       sp_register = UC_X86_REG_ESP, stack_ceiling = 0\<rparr> = 3
   \<and> waiting (hook_mem_write (default_args\<lparr>write_range := (\<lambda>n. 4 \<le> n)\<rparr>) (\<lambda>_. 0x430000) 0x42F000 1 0x41
      \<lparr>writes = [], address = 0x401003, waiting = 3, callstack = [],
       retaddr = None, stop = None, previous_address = 0x401000,
       sp_register = UC_X86_REG_ESP, stack_ceiling = 0\<rparr>) = 0"
  by (simp add: default_args_def hook_mem_write_def call_detection_def ceiling_suppressed_def Let_def)

subsection \<open>Architecture tables and stack placement\<close>

text \<open>
  Claim C1 says that the set-up of an entry point resolves a stack-pointer register for
  every supported architecture. The code does not: for ARM-64 and for both PowerPC tags
  the emulator table has an entry, so the emulator is created, but the stack-pointer table
  has none (its ARM-32 line stands twice), and the look-up raises \<open>KeyError\<close>. For the
  other eight tags the register is found.
\<close>

theorem sp_lookup_misses_arm64_and_ppc:
  "uc_arch ARM64 = Inr (UC_ARCH_ARM, UC_MODE_THUMB) \<and> resolve_sp ARM64 = Inl KeyError
   \<and> uc_arch PPC32 = Inr (UC_ARCH_PPC, UC_MODE_32) \<and> resolve_sp PPC32 = Inl KeyError
   \<and> uc_arch PPC64 = Inr (UC_ARCH_PPC, UC_MODE_64) \<and> resolve_sp PPC64 = Inl KeyError
   \<and> map resolve_sp [X8632, X8664, ARM32, MIPS16, MIPS32, MIPS64, SPARC32, SPARC64]
       = [Inr UC_X86_REG_ESP, Inr UC_X86_REG_RSP, Inr UC_ARM_REG_SP, Inr UC_MIPS_REG_SP,
          Inr UC_MIPS_REG_SP, Inr UC_MIPS_REG_SP, Inr UC_SPARC_REG_SP, Inr UC_SPARC_REG_SP]"
  by (simp add: resolve_sp_def uc_arch_def dict_lookup_def uc_arch_table_def sp_table_def)

text \<open>
  Claim C3 says that a returned address \<open>A\<close> leaves the whole of \<open>[A, A + 3 * stack_size)\<close>
  inside the address space and clear of the image. The placer tests one \<open>stack_size\<close>
  only, and the driver maps three from the address it returns. Both examples are 32-bit
  images with the default stack size \<open>0x10000\<close>. For an image that occupies
  \<open>[0xFFF00000, 0xFFFE0000)\<close> the placer returns \<open>0xFFFE0000\<close>, and three stack sizes from
  there pass \<open>2 ^ 32\<close>. For an image that occupies the top of the address space,
  \<open>[0xFFFE0000, 0x100000000)\<close>, it returns \<open>0xFFFD0000\<close>, one stack size below the image,
  and the three stack sizes mapped from there run into the image.
\<close>

theorem stack_region_leaves_address_space_or_meets_image:
  "find_stack_location default_args
     \<lparr>pointer_size = 32, arch = X8632,
      segments = [\<lparr>lower = 0xFFF00000, upper = 0xFFFE0000\<rparr>],
      image_defined_address_space = \<lparr>lower = 0xFFF00000, upper = 0xFFFE0000\<rparr>\<rparr>
     = Inr 0xFFFE0000
   \<and> (2::int) ^ 32 < 0xFFFE0000 + 3 * stack_size default_args
   \<and> find_stack_location default_args
     \<lparr>pointer_size = 32, arch = X8632,
      segments = [\<lparr>lower = 0xFFFE0000, upper = 0x100000000\<rparr>],
      image_defined_address_space = \<lparr>lower = 0xFFFE0000, upper = 0x100000000\<rparr>\<rparr>
     = Inr 0xFFFD0000
   \<and> (0xFFFE0000::int) < 0xFFFD0000 + 3 * stack_size default_args
   \<and> (0xFFFD0000::int) < 0x100000000"
  by (simp add: find_stack_location_def default_args_def align_def Let_def)

subsection \<open>The shadow call stack\<close>

text \<open>
  Claim C5 says that the stack ceiling is 0 whenever the shadow call stack is empty, in
  particular after a false call. The code pops the call stack on the fall-through but
  leaves the ceiling. The run is \<open>call next; next: pop eax\<close> at \<open>0x401000\<close> with the stack
  pointer at \<open>0x430000\<close>: the call stores the address \<open>0x401005\<close> of \<open>next\<close> at \<open>0x42FFFC\<close>.
  After the code hook of \<open>pop eax\<close> the call stack is empty and the ceiling is still
  \<open>0x430000\<close>, so that a later four-byte store at \<open>0x42FFFC\<close> is suppressed and not
  recorded.
\<close>

theorem false_call_leaves_stack_ceiling:
  "(case emu_start default_args (initial_state default_args UC_X86_REG_ESP 0x401000)
           [Insn 0x401000 5 True False,
            MemWrite 0x42FFFC 4 0x401005 (\<lambda>_. 0x430000),
            Insn 0x401005 1 True False]
    of (state, n, t) \<Rightarrow>
      t = Finished \<and> n = 2 \<and> callstack state = [] \<and> stack_ceiling state = 0x430000
      \<and> writes state = []
      \<and> ceiling_suppressed (call_detection (\<lambda>_. 0x430000) 0x41414141 state) 0x42FFFC
      \<and> writes (hook_mem_write default_args (\<lambda>_. 0x430000) 0x42FFFC 4 0x41414141 state) = [])"
  by (simp add: default_args_def initial_state_def hook_code_def call_tracking_def
      hook_mem_write_def call_detection_def ceiling_suppressed_def Let_def)

subsection \<open>The write tracker\<close>

lemma merge_fold:
  assumes "sorted_wrt (\<lambda>x y. fst x \<le> fst y) xs"
      and "\<forall>x\<in>set xs. fst x < snd x"
      and "\<forall>x\<in>set acc. fst x < snd x"
      and "sorted_wrt (\<lambda>x y. snd y \<le> fst x) acc"
      and "acc \<noteq> [] \<longrightarrow> (\<forall>h\<in>set xs. fst (hd acc) \<le> fst h)"
  shows "sorted_wrt (\<lambda>x y. snd y \<le> fst x) (foldl merge_step acc xs)
       \<and> (\<forall>x\<in>set (foldl merge_step acc xs). fst x < snd x)"
  using assms
proof (induction xs arbitrary: acc)
  case Nil
  then show ?case by simp
next
  case (Cons h xs)
  have xs_sorted: "sorted_wrt (\<lambda>x y. fst x \<le> fst y) xs"
    and h_le: "\<forall>x\<in>set xs. fst h \<le> fst x"
    and xs_proper: "\<forall>x\<in>set xs. fst x < snd x"
    and h_proper: "fst h < snd h"
    using Cons.prems(1,2) by simp_all
  have step: "(\<forall>x\<in>set (merge_step acc h). fst x < snd x)
       \<and> sorted_wrt (\<lambda>x y. snd y \<le> fst x) (merge_step acc h)
       \<and> (\<forall>x\<in>set xs. fst (hd (merge_step acc h)) \<le> fst x)"
  proof (cases acc)
    case Nil
    with h_proper h_le show ?thesis by simp
  next
    case (Cons l ms)
    have l_proper: "fst l < snd l" and ms_proper: "\<forall>x\<in>set ms. fst x < snd x"
      and ms_below: "\<forall>m\<in>set ms. snd m \<le> fst l"
      and ms_sorted: "sorted_wrt (\<lambda>x y. snd y \<le> fst x) ms"
      and l_le: "fst l \<le> fst h"
      using Cons.prems(3,4,5) Cons by simp_all
    show ?thesis
    proof (cases "fst h < snd l")
      case True
      with Cons l_proper ms_proper ms_below ms_sorted l_le h_le show ?thesis
        by (auto simp: max_def)
    next
      case False
      then have "snd l \<le> fst h" by simp
      moreover have "\<forall>m\<in>set ms. snd m \<le> fst h"
        using ms_below l_le by fastforce
      ultimately show ?thesis
        using Cons False h_proper l_proper ms_proper ms_below ms_sorted h_le by simp
    qed
  qed
  have "merge_step acc h \<noteq> []" by (cases acc) auto
  with step Cons.IH [of "merge_step acc h"] xs_sorted xs_proper show ?case by simp
qed

lemma sorted_fst: "sorted (xs :: interval list) \<Longrightarrow> sorted_wrt (\<lambda>x y. fst x \<le> fst y) xs"
  by (induction xs) (auto simp: less_eq_prod_def)

lemma merge_overlaps_separated:
  assumes "\<forall>x\<in>set tree. fst x < snd x"
  shows "sorted_wrt (\<lambda>x y. snd x \<le> fst y) (merge_overlaps tree)
       \<and> (\<forall>x\<in>set (merge_overlaps tree). fst x < snd x)"
proof -
  have "sorted_wrt (\<lambda>x y. snd y \<le> fst x) (foldl merge_step [] (sort tree))
       \<and> (\<forall>x\<in>set (foldl merge_step [] (sort tree)). fst x < snd x)"
    using assms by (intro merge_fold) (simp_all add: sorted_fst)
  then show ?thesis by (simp add: merge_overlaps_def sorted_wrt_rev)
qed

lemma tracker_add_separated:
  assumes "\<forall>x\<in>set tree. fst x < snd x"
  shows "sorted_wrt (\<lambda>x y. snd x \<le> fst y) (tracker_add tree addr sz)
       \<and> (\<forall>x\<in>set (tracker_add tree addr sz). fst x < snd x)"
  unfolding tracker_add_def
  by (rule merge_overlaps_separated) (use assms in \<open>auto simp: addi_def\<close>)

lemma foldl_tracker_add_separated:
  assumes "\<forall>x\<in>set tree. fst x < snd x" and "sorted_wrt (\<lambda>x y. snd x \<le> fst y) tree"
  shows "sorted_wrt (\<lambda>x y. snd x \<le> fst y) (foldl (\<lambda>tree (addr, sz). tracker_add tree addr sz) tree ws)
       \<and> (\<forall>x\<in>set (foldl (\<lambda>tree (addr, sz). tracker_add tree addr sz) tree ws). fst x < snd x)"
  using assms
proof (induction ws arbitrary: tree)
  case Nil
  then show ?case by simp
next
  case (Cons w ws)
  obtain addr sz where w: "w = (addr, sz)" by (cases w)
  from tracker_add_separated [OF Cons.prems(1), of addr sz] Cons.IH [of "tracker_add tree addr sz"]
  show ?case by (simp add: w)
qed

text \<open>
  Claim C4, as the code has it. After any sequence of recorded writes the stored intervals
  are non-empty, stand in address order and do not overlap: each one ends at or before the
  begin of every later one. They may touch.
\<close>

theorem recorded_intervals_do_not_overlap:
  "sorted_wrt (\<lambda>x y. snd x \<le> fst y) (record_writes ws)
   \<and> list_all (\<lambda>x. fst x < snd x) (record_writes ws)"
  using foldl_tracker_add_separated [of "[]" ws]
  by (simp add: record_writes_def list_all_iff)

text \<open>
  Claim C4 as stated fails: one-byte writes at the addresses 0 and 2 are stored as
  \<open>[0, 2)\<close> and \<open>[2, 4)\<close>; the two do not overlap, so they are not merged, and they share
  the endpoint 2.
\<close>

theorem recorded_intervals_may_touch:
  "record_writes [(0, 1), (2, 1)] = [(0, 2), (2, 4)]
   \<and> snd (record_writes [(0, 1), (2, 1)] ! 0) = fst (record_writes [(0, 1), (2, 1)] ! 1)"
  by (simp add: record_writes_def tracker_add_def addi_def merge_overlaps_def less_eq_prod_def)

subsection \<open>The driver and the code hook\<close>

lemma harvest_eq:
  "harvest args mem it =
     map (\<lambda>i. mem_read mem (fst i) (snd i - fst i - 1))
         (filter (\<lambda>i. patch_range args (snd i - fst i - 1)) it)"
  by (induction it) (simp_all add: Let_def)

text \<open>
  Claim C9. Once the set-up of an entry point has succeeded, the driver emits the same
  thing however the emulation ends, be it at the end of the code, by a halt from a hook or
  by a runtime error of the emulator, which is swallowed: for the intervals of the
  recorded set, in the order in which the set yields them, the bytes read back from the
  memory of the emulator at the begin of the interval, of length \<open>e - b - 1\<close>, for exactly
  those intervals whose length \<open>e - b - 1\<close> lies in \<open>patch_range\<close>.
\<close>

theorem harvest_after_every_ending:
  assumes "resolve_sp (arch exe) = Inr sp"
      and "map_segments addr (map_outcome emu) (segments exe) = Inr ()"
      and "emu_start args (initial_state args sp addr) (trace emu) = (state, n, t)"
      and "t = Finished \<or> t = Halted \<or> t = Raised UcError"
  shows "process_entry args exe emu addr =
           Inr (map (\<lambda>i. mem_read (memory emu) (fst i) (snd i - fst i - 1))
                    (filter (\<lambda>i. patch_range args (snd i - fst i - 1)) (writes state)))"
  using assms by (auto simp: process_entry_def harvest_eq)

theorem harvest_after_every_ending_witness:
  "resolve_sp X8632 = Inr UC_X86_REG_ESP
   \<and> map_segments 0x401000 (\<lambda>_. None) [\<lparr>lower = 0x400000, upper = 0x402000\<rparr>] = Inr ()
   \<and> snd (snd (emu_start default_args (initial_state default_args UC_X86_REG_ESP 0x401000)
        [Insn 0x401000 8 True False, MemWrite 0x42FFF0 4 0x6C6C6548 (\<lambda>_. 0x430000),
         Insn 0x401008 8 True False, MemWrite 0x42FFF4 4 0x6F57206F (\<lambda>_. 0x430000),
         Insn 0x401010 3 True False, MemWrite 0x42FF00 2 0x2164 (\<lambda>_. 0x430000),
         Fault])) = Raised UcError
   \<and> process_entry default_args
        \<lparr>pointer_size = 32, arch = X8632, segments = [\<lparr>lower = 0x400000, upper = 0x402000\<rparr>],
         image_defined_address_space = \<lparr>lower = 0x400000, upper = 0x402000\<rparr>\<rparr>
        \<lparr>map_outcome = (\<lambda>_. None),
         trace = [Insn 0x401000 8 True False, MemWrite 0x42FFF0 4 0x6C6C6548 (\<lambda>_. 0x430000),
                  Insn 0x401008 8 True False, MemWrite 0x42FFF4 4 0x6F57206F (\<lambda>_. 0x430000),
                  Insn 0x401010 3 True False, MemWrite 0x42FF00 2 0x2164 (\<lambda>_. 0x430000),
                  Fault],
         memory = (\<lambda>_. 0x41)\<rparr> 0x401000
       = Inr [[0x41, 0x41, 0x41, 0x41, 0x41, 0x41, 0x41, 0x41]]"
proof -
  let ?exe = "\<lparr>pointer_size = 32, arch = X8632, segments = [\<lparr>lower = 0x400000, upper = 0x402000\<rparr>],
         image_defined_address_space = \<lparr>lower = 0x400000, upper = 0x402000\<rparr>\<rparr>"
  let ?tr = "[Insn 0x401000 8 True False, MemWrite 0x42FFF0 4 0x6C6C6548 (\<lambda>_. 0x430000),
         Insn 0x401008 8 True False, MemWrite 0x42FFF4 4 0x6F57206F (\<lambda>_. 0x430000),
         Insn 0x401010 3 True False, MemWrite 0x42FF00 2 0x2164 (\<lambda>_. 0x430000),
         Fault]"
  let ?emu = "\<lparr>map_outcome = (\<lambda>_. None), trace = ?tr, memory = (\<lambda>_. 0x41)\<rparr>"
  let ?st = "\<lparr>writes = [(0x42FF00, 0x42FF03), (0x42FFF0, 0x42FFF9)], address = 0x401013, waiting = 0,
       callstack = [], retaddr = None, stop = None, previous_address = 0x401010,
       sp_register = UC_X86_REG_ESP, stack_ceiling = 0\<rparr>"
  have sp: "resolve_sp (arch ?exe) = Inr UC_X86_REG_ESP"
    by (simp add: resolve_sp_def uc_arch_def dict_lookup_def uc_arch_table_def sp_table_def)
  have ms: "map_segments 0x401000 (map_outcome ?emu) (segments ?exe) = Inr ()"
    by simp
  have run: "emu_start default_args (initial_state default_args UC_X86_REG_ESP 0x401000) (trace ?emu)
      = (?st, 3, Raised UcError)"
    by (simp add: default_args_def initial_state_def hook_code_def call_tracking_def
      hook_mem_write_def call_detection_def ceiling_suppressed_def Let_def
      tracker_add_def addi_def merge_overlaps_def less_eq_prod_def)
  have "process_entry default_args ?exe ?emu 0x401000 =
      Inr (map (\<lambda>i. mem_read (memory ?emu) (fst i) (snd i - fst i - 1))
               (filter (\<lambda>i. patch_range default_args (snd i - fst i - 1)) (writes ?st)))"
    by (rule harvest_after_every_ending [OF sp ms run]) simp
  moreover have "[0..<8] = [0, 1, 2, 3, 4, 5, 6, 7::nat]" by code_simp
  ultimately have "process_entry default_args ?exe ?emu 0x401000
       = Inr [[0x41, 0x41, 0x41, 0x41, 0x41, 0x41, 0x41, 0x41]]"
    by (simp add: default_args_def mem_read_def)
  with sp ms run show ?thesis by simp
qed

lemma call_tracking_keeps:
  assumes "call_tracking pc depth state = Inr (depth', state')"
  shows "waiting state' = waiting state \<and> writes state' = writes state \<and> stop state' = stop state"
proof (cases "pc \<noteq> address state")
  case True
  with assms show ?thesis
    by (cases "depth \<noteq> 0 \<and> pc = last (callstack state)")
       (auto simp: call_tracking_def Let_def split: if_splits)
next
  case False
  with assms show ?thesis
    by (auto simp: call_tracking_def split: if_splits)
qed

lemma hook_code_unfold:
  assumes "Some pc \<noteq> stop state"
  shows "hook_code args False pc sz decodes state =
     (case call_tracking pc (length (callstack state)) (state\<lparr>previous_address := address state\<rparr>) of
        Inl e \<Rightarrow> Inl e
      | Inr (depth, state1) \<Rightarrow>
          if waiting state > wait args then Inr (state1, True)
          else Inr (state1\<lparr>waiting := (if depth = 0 \<or> \<not> calls_wait args
                                        then waiting state1 + 1 else waiting state1),
                           address := address state1 + int sz\<rparr>, \<not> decodes))"
  using assms
  by (auto simp: hook_code_def Let_def split: sum.splits)

lemma hook_code_waits:
  assumes "hook_code args False pc sz True state = Inr (state', stopped)"
      and "Some pc \<noteq> stop state" and "\<not> calls_wait args"
  shows "stopped = (waiting state > wait args)
       \<and> (\<not> stopped \<longrightarrow> waiting state' = waiting state + 1)"
proof (cases "call_tracking pc (length (callstack state)) (state\<lparr>previous_address := address state\<rparr>)")
  case (Inl e)
  with assms show ?thesis by (simp add: hook_code_unfold)
next
  case (Inr r)
  obtain depth state1 where r: "r = (depth, state1)" by (cases r)
  from call_tracking_keeps [OF Inr [unfolded r]]
  have "waiting state1 = waiting state" by simp
  with assms Inr r show ?thesis
    by (auto simp: hook_code_unfold split: if_splits)
qed

lemma hook_code_writes:
  assumes "hook_code args interrupt pc sz decodes state = Inr (state', stopped)"
  shows "writes state' = writes state"
proof (cases "Some pc = stop state \<or> interrupt")
  case True
  with assms show ?thesis by (auto simp: hook_code_def split: if_splits)
next
  case False
  then have np: "Some pc \<noteq> stop state" and ni: "interrupt = False" by simp_all
  show ?thesis
  proof (cases "call_tracking pc (length (callstack state)) (state\<lparr>previous_address := address state\<rparr>)")
    case (Inl e)
    with assms np ni show ?thesis by (simp add: hook_code_unfold)
  next
    case (Inr r)
    obtain depth state1 where r: "r = (depth, state1)" by (cases r)
    from call_tracking_keeps [OF Inr [unfolded r]]
    have "writes state1 = writes state" by simp
    with assms Inr r np ni show ?thesis
      by (auto simp: hook_code_unfold split: if_splits)
  qed
qed

lemma hook_code_interrupted:
  "hook_code args True pc sz decodes state = Inr (state, True)"
  by (simp add: hook_code_def)

lemma emu_start_append:
  assumes "emu_start args state before = (state', n, Finished)"
  shows "emu_start args state (before @ evs) =
           (case emu_start args state' evs of (s, m, t) \<Rightarrow> (s, n + m, t))"
  using assms
proof (induction args state before arbitrary: n rule: emu_start.induct)
  case (1 args state)
  then show ?case by simp
next
  case (2 args state pc sz decodes interrupt evs')
  then show ?case
    by (auto split: sum.splits prod.splits if_splits)
next
  case (3 args state addr sz "value" reg_read evs')
  then show ?case by simp
next
  case (4 args state evs')
  then show ?case by simp
qed

lemma wait_countdown:
  assumes "\<not> calls_wait args" and "0 \<le> waiting state" and "waiting state \<le> wait args + 1"
      and "quiet args state evs"
      and "nat (wait args + 1 - waiting state) < insn_count evs"
  shows "\<exists>s. emu_start args state evs = (s, nat (wait args + 1 - waiting state), Halted)"
  using assms(2-)
proof (induction evs arbitrary: state)
  case Nil
  then show ?case by (simp add: insn_count_def)
next
  case (Cons ev evs)
  show ?case
  proof (cases ev)
    case (Insn pc sz decodes interrupt)
    from Cons.prems(3) Insn have d: "decodes" and i: "\<not> interrupt" and p: "Some pc \<noteq> stop state"
      by simp_all
    from Cons.prems(3) Insn obtain state' stopped
      where h: "hook_code args False pc sz True state = Inr (state', stopped)"
        and q: "quiet args state' evs"
      using d i by (auto split: sum.splits)
    from hook_code_waits [OF h p assms(1)]
    have st: "stopped = (waiting state > wait args)"
      and w: "\<not> stopped \<Longrightarrow> waiting state' = waiting state + 1" by simp_all
    show ?thesis
    proof (cases stopped)
      case True
      with st Cons.prems(2) have "waiting state = wait args + 1" by simp
      with True h Insn d i show ?thesis by simp
    next
      case False
      with st have le: "waiting state \<le> wait args" by simp
      from w False have w': "waiting state' = waiting state + 1" by simp
      have "nat (wait args + 1 - waiting state') < insn_count evs"
        using Cons.prems(4) Insn le w' by (simp add: insn_count_def)
      with Cons.IH [of state'] q w' le Cons.prems(1)
      obtain s where "emu_start args state' evs = (s, nat (wait args + 1 - waiting state'), Halted)"
        by auto
      moreover have "Suc (nat (wait args + 1 - waiting state')) = nat (wait args + 1 - waiting state)"
        using le w' Cons.prems(1) by simp
      ultimately show ?thesis using h Insn d i False by simp
    qed
  next
    case (MemWrite addr sz v reg_read)
    from Cons.prems(3) MemWrite
    have sup: "ceiling_suppressed (call_detection reg_read (v AND (2 ^ (sz * 8) - 1)) state) addr"
      and q: "quiet args (hook_mem_write args reg_read addr sz v state) evs"
      by simp_all
    have w: "waiting (hook_mem_write args reg_read addr sz v state) = waiting state"
      using sup by (simp add: hook_mem_write_suppressed)
    have "nat (wait args + 1 - waiting state) < insn_count evs"
      using Cons.prems(4) MemWrite by (simp add: insn_count_def)
    with Cons.IH [of "hook_mem_write args reg_read addr sz v state"] q w Cons.prems(1,2)
    show ?thesis using MemWrite by simp
  next
    case Fault
    with Cons.prems(3) show ?thesis by simp
  qed
qed

text \<open>
  Claim C7, as the code has it. Let \<open>calls_wait\<close> be off and \<open>wait\<close> not negative, and let
  the waiting counter be 0, as it is at the entry point and after every write that is not
  suppressed. If from there on no write resets the counter (every write is suppressed
  below the ceiling), every instruction disassembles, none is the stop address, no hook
  is interrupted or raises, and the code offers more than \<open>wait + 1\<close> instructions, then
  the code hook halts the emulation after exactly \<open>wait + 1\<close> executed instructions.
\<close>

theorem wait_termination:
  assumes "\<not> calls_wait args" and "0 \<le> wait args" and "waiting state = 0"
      and "quiet args state evs"
      and "nat (wait args) + 1 < insn_count evs"
  shows "\<exists>s. emu_start args state evs = (s, nat (wait args) + 1, Halted)"
proof -
  have "nat (wait args + 1 - waiting state) = nat (wait args) + 1"
    using assms(2,3) by simp
  with wait_countdown [of args state evs] assms show ?thesis by simp
qed

theorem wait_termination_witness:
  "\<not> calls_wait (default_args\<lparr>wait := 1\<rparr>) \<and> 0 \<le> wait (default_args\<lparr>wait := 1\<rparr>)
   \<and> quiet (default_args\<lparr>wait := 1\<rparr>)
        \<lparr>writes = [], address = 0x401000, waiting = 0, callstack = [0x402000], retaddr = None,
         stop = None, previous_address = 0x400FFF, sp_register = UC_X86_REG_ESP,
         stack_ceiling = 0x430000\<rparr>
        [Insn 0x401000 1 True False, MemWrite 0x42FFF8 4 0 (\<lambda>_. 0x42FFFC),
         Insn 0x401001 1 True False, Insn 0x401002 1 True False, Insn 0x401003 1 True False]
   \<and> nat (wait (default_args\<lparr>wait := 1\<rparr>)) + 1
        < insn_count [Insn 0x401000 1 True False, MemWrite 0x42FFF8 4 0 (\<lambda>_. 0x42FFFC),
         Insn 0x401001 1 True False, Insn 0x401002 1 True False, Insn 0x401003 1 True False]
   \<and> (\<exists>s. emu_start (default_args\<lparr>wait := 1\<rparr>)
        \<lparr>writes = [], address = 0x401000, waiting = 0, callstack = [0x402000], retaddr = None,
         stop = None, previous_address = 0x400FFF, sp_register = UC_X86_REG_ESP,
         stack_ceiling = 0x430000\<rparr>
        [Insn 0x401000 1 True False, MemWrite 0x42FFF8 4 0 (\<lambda>_. 0x42FFFC),
         Insn 0x401001 1 True False, Insn 0x401002 1 True False, Insn 0x401003 1 True False]
       = (s, 2, Halted))"
proof -
  let ?args = "default_args\<lparr>wait := 1\<rparr>"
  let ?st = "\<lparr>writes = [], address = 0x401000, waiting = 0, callstack = [0x402000], retaddr = None,
         stop = None, previous_address = 0x400FFF, sp_register = UC_X86_REG_ESP,
         stack_ceiling = 0x430000\<rparr>"
  let ?evs = "[Insn 0x401000 1 True False, MemWrite 0x42FFF8 4 0 (\<lambda>_. 0x42FFFC),
         Insn 0x401001 1 True False, Insn 0x401002 1 True False, Insn 0x401003 1 True False]"
  have h: "\<not> calls_wait ?args" "0 \<le> wait ?args" "waiting ?st = 0"
    by (simp_all add: default_args_def)
  have q: "quiet ?args ?st ?evs"
    by (simp add: default_args_def hook_code_def call_tracking_def
      hook_mem_write_def call_detection_def ceiling_suppressed_def Let_def)
  have c: "nat (wait ?args) + 1 < insn_count ?evs"
    by (simp add: default_args_def insn_count_def)
  have n: "nat (wait ?args) + 1 = 2"
    by (simp add: default_args_def)
  from wait_termination [OF h q c] have "\<exists>s. emu_start ?args ?st ?evs = (s, 2, Halted)"
    unfolding n .
  with h q c show ?thesis by blast
qed

text \<open>
  Claim C7 as stated fails: a write whose size lies outside \<open>write_range\<close> is not a
  qualifying write, yet it resets the waiting counter. With \<open>wait = 1\<close> and \<open>write_range\<close>
  starting at two bytes, four instructions that each store one byte are all executed,
  nothing is recorded, and the emulation has not halted after \<open>wait + 1 = 2\<close> instructions.
\<close>

theorem unrecorded_writes_defer_the_halt:
  "\<not> write_range (default_args\<lparr>wait := 1, write_range := (\<lambda>n. 2 \<le> n)\<rparr>) (int 1)
   \<and> wait (default_args\<lparr>wait := 1, write_range := (\<lambda>n. 2 \<le> n)\<rparr>) + 1 = 2
   \<and> (case emu_start (default_args\<lparr>wait := 1, write_range := (\<lambda>n. 2 \<le> n)\<rparr>)
             (initial_state default_args UC_X86_REG_ESP 0x401000)
             [Insn 0x401000 1 True False, MemWrite 0x42F000 1 0x41 (\<lambda>_. 0x430000),
              Insn 0x401001 1 True False, MemWrite 0x42F001 1 0x42 (\<lambda>_. 0x430000),
              Insn 0x401002 1 True False, MemWrite 0x42F002 1 0x43 (\<lambda>_. 0x430000),
              Insn 0x401003 1 True False, MemWrite 0x42F003 1 0x44 (\<lambda>_. 0x430000)]
       of (state, n, t) \<Rightarrow> n = 4 \<and> t = Finished \<and> writes state = [])"
  by (simp add: default_args_def initial_state_def hook_code_def call_tracking_def
      hook_mem_write_def call_detection_def ceiling_suppressed_def Let_def)

lemma map_segments_interrupted:
  assumes "list_all (\<lambda>vmem. outcome vmem = None) pre" and "outcome vmem = Some KeyboardInterrupt"
  shows "map_segments addr outcome (pre @ vmem # post) = Inl KeyboardInterrupt"
  using assms by (induction pre) simp_all

text \<open>
  Claim C6, as the code has it. A \<open>KeyboardInterrupt\<close> that is raised in the code hook is
  caught there: the hook tells the emulator to stop and returns, no exception leaves it,
  and the driver then harvests and emits what the entry point has recorded so far, as
  after any other halt. A \<open>KeyboardInterrupt\<close> that is raised while a segment is mapped
  does propagate out of the unit, and nothing is emitted for that entry point.
\<close>

theorem interrupt_in_code_hook_is_caught:
  assumes "resolve_sp (arch exe) = Inr sp"
  shows "(map_segments addr (map_outcome emu) (segments exe) = Inr ()
          \<and> trace emu = before @ Insn pc sz decodes True # after
          \<and> emu_start args (initial_state args sp addr) before = (state, n, Finished)
          \<longrightarrow> hook_code args True pc sz decodes state = Inr (state, True)
              \<and> process_entry args exe emu addr = Inr (harvest args (memory emu) (writes state)))
       \<and> (segments exe = pre @ vmem # post
          \<and> list_all (\<lambda>v. map_outcome emu v = None) pre
          \<and> map_outcome emu vmem = Some KeyboardInterrupt
          \<longrightarrow> process_entry args exe emu addr = Inl KeyboardInterrupt)"
proof (intro conjI impI)
  assume a: "map_segments addr (map_outcome emu) (segments exe) = Inr ()
          \<and> trace emu = before @ Insn pc sz decodes True # after
          \<and> emu_start args (initial_state args sp addr) before = (state, n, Finished)"
  show "hook_code args True pc sz decodes state = Inr (state, True)"
    by (rule hook_code_interrupted)
  have "emu_start args state (Insn pc sz decodes True # after) = (state, 0, Halted)"
    by (simp add: hook_code_interrupted)
  with a have "emu_start args (initial_state args sp addr) (trace emu) = (state, n, Halted)"
    by (simp add: emu_start_append)
  with a assms show "process_entry args exe emu addr = Inr (harvest args (memory emu) (writes state))"
    by (simp add: process_entry_def)
next
  assume "segments exe = pre @ vmem # post
          \<and> list_all (\<lambda>v. map_outcome emu v = None) pre
          \<and> map_outcome emu vmem = Some KeyboardInterrupt"
  then have "map_segments addr (map_outcome emu) (segments exe) = Inl KeyboardInterrupt"
    by (simp add: map_segments_interrupted)
  with assms show "process_entry args exe emu addr = Inl KeyboardInterrupt"
    by (simp add: process_entry_def)
qed

theorem interrupt_in_code_hook_is_caught_witness:
  "resolve_sp X8632 = Inr UC_X86_REG_ESP
   \<and> hook_code default_args True 0x401008 8 True
        \<lparr>writes = [(0x42FFF0, 0x42FFF9)], address = 0x401008, waiting = 0,
         callstack = [], retaddr = None, stop = None, previous_address = 0x401000,
         sp_register = UC_X86_REG_ESP, stack_ceiling = 0\<rparr>
       = Inr (\<lparr>writes = [(0x42FFF0, 0x42FFF9)], address = 0x401008, waiting = 0,
         callstack = [], retaddr = None, stop = None, previous_address = 0x401000,
         sp_register = UC_X86_REG_ESP, stack_ceiling = 0\<rparr>, True)
   \<and> process_entry default_args
        \<lparr>pointer_size = 32, arch = X8632, segments = [\<lparr>lower = 0x400000, upper = 0x402000\<rparr>],
         image_defined_address_space = \<lparr>lower = 0x400000, upper = 0x402000\<rparr>\<rparr>
        \<lparr>map_outcome = (\<lambda>_. None),
         trace = [Insn 0x401000 8 True False, MemWrite 0x42FFF0 8 0x6F57206F6C6C6548 (\<lambda>_. 0x430000),
                  Insn 0x401008 8 True True, MemWrite 0x42FFF8 8 0 (\<lambda>_. 0x430000)],
         memory = (\<lambda>_. 0x41)\<rparr> 0x401000
       = Inr (harvest default_args (\<lambda>_. 0x41) [(0x42FFF0, 0x42FFF9)])
   \<and> process_entry default_args
        \<lparr>pointer_size = 32, arch = X8632, segments = [\<lparr>lower = 0x400000, upper = 0x402000\<rparr>],
         image_defined_address_space = \<lparr>lower = 0x400000, upper = 0x402000\<rparr>\<rparr>
        \<lparr>map_outcome = (\<lambda>_. Some KeyboardInterrupt), trace = [], memory = (\<lambda>_. 0)\<rparr> 0x401000
       = Inl KeyboardInterrupt"
proof -
  let ?exe = "\<lparr>pointer_size = 32, arch = X8632, segments = [\<lparr>lower = 0x400000, upper = 0x402000\<rparr>],
         image_defined_address_space = \<lparr>lower = 0x400000, upper = 0x402000\<rparr>\<rparr>"
  let ?before = "[Insn 0x401000 8 True False, MemWrite 0x42FFF0 8 0x6F57206F6C6C6548 (\<lambda>_. 0x430000)]"
  let ?after = "[MemWrite 0x42FFF8 8 0 (\<lambda>_. 0x430000)]"
  let ?emu = "\<lparr>map_outcome = (\<lambda>_. None),
         trace = [Insn 0x401000 8 True False, MemWrite 0x42FFF0 8 0x6F57206F6C6C6548 (\<lambda>_. 0x430000),
                  Insn 0x401008 8 True True, MemWrite 0x42FFF8 8 0 (\<lambda>_. 0x430000)],
         memory = (\<lambda>_. 0x41)\<rparr>"
  let ?emu2 = "\<lparr>map_outcome = (\<lambda>_. Some KeyboardInterrupt), trace = [], memory = (\<lambda>_. 0)\<rparr>"
  let ?st = "\<lparr>writes = [(0x42FFF0, 0x42FFF9)], address = 0x401008, waiting = 0,
         callstack = [], retaddr = None, stop = None, previous_address = 0x401000,
         sp_register = UC_X86_REG_ESP, stack_ceiling = 0\<rparr>"
  have sp: "resolve_sp (arch ?exe) = Inr UC_X86_REG_ESP"
    by (simp add: resolve_sp_def uc_arch_def dict_lookup_def uc_arch_table_def sp_table_def)
  have ms: "map_segments 0x401000 (map_outcome ?emu) (segments ?exe) = Inr ()"
    by simp
  have tr: "trace ?emu = ?before @ Insn 0x401008 8 True True # ?after"
    by simp
  have run: "emu_start default_args (initial_state default_args UC_X86_REG_ESP 0x401000) ?before
      = (?st, 1, Finished)"
    by (simp add: default_args_def initial_state_def hook_code_def call_tracking_def
      hook_mem_write_def call_detection_def ceiling_suppressed_def Let_def
      tracker_add_def addi_def merge_overlaps_def)
  have sg: "segments ?exe = [] @ \<lparr>lower = 0x400000, upper = 0x402000\<rparr> # []"
    "list_all (\<lambda>v. map_outcome ?emu2 v = None) []"
    "map_outcome ?emu2 \<lparr>lower = 0x400000, upper = 0x402000\<rparr> = Some KeyboardInterrupt"
    by simp_all
  note thm1 = interrupt_in_code_hook_is_caught [where exe = ?exe and sp = UC_X86_REG_ESP
      and addr = "0x401000" and emu = ?emu and before = ?before and pc = "0x401008" and sz = 8
      and decodes = True and after = ?after and args = default_args and state = ?st and n = 1,
      OF sp]
  note thm2 = interrupt_in_code_hook_is_caught [where exe = ?exe and sp = UC_X86_REG_ESP
      and addr = "0x401000" and emu = ?emu2 and args = default_args and pre = "[]"
      and vmem = "\<lparr>lower = 0x400000, upper = 0x402000\<rparr>" and post = "[]", OF sp]
  from thm1 ms tr run
  have A: "hook_code default_args True 0x401008 8 True ?st = Inr (?st, True)"
    and B: "process_entry default_args ?exe ?emu 0x401000
              = Inr (harvest default_args (memory ?emu) (writes ?st))"
    by blast+
  from thm2 sg have C: "process_entry default_args ?exe ?emu2 0x401000 = Inl KeyboardInterrupt"
    by blast
  from sp A B C show ?thesis by simp
qed

text \<open>
  Claim C6 as stated fails: when the host interrupts the code hook of the third
  instruction, after two four-byte stores next to each other, the unit does not raise
  \<open>KeyboardInterrupt\<close> but emits the eight bytes of the recorded region.
\<close>

theorem interrupt_in_code_hook_yields_patches:
  "process_entry default_args
        \<lparr>pointer_size = 32, arch = X8632, segments = [\<lparr>lower = 0x400000, upper = 0x402000\<rparr>],
         image_defined_address_space = \<lparr>lower = 0x400000, upper = 0x402000\<rparr>\<rparr>
        \<lparr>map_outcome = (\<lambda>_. None),
         trace = [Insn 0x401000 8 True False, MemWrite 0x42FFF0 4 0x6C6C6548 (\<lambda>_. 0x430000),
                  Insn 0x401008 8 True False, MemWrite 0x42FFF4 4 0x6F57206F (\<lambda>_. 0x430000),
                  Insn 0x401010 3 True True],
         memory = (\<lambda>_. 0x41)\<rparr> 0x401000
       = Inr [[0x41, 0x41, 0x41, 0x41, 0x41, 0x41, 0x41, 0x41]]"
proof -
  have "[0..<8] = [0, 1, 2, 3, 4, 5, 6, 7::nat]" by code_simp
  then show ?thesis
    by (simp add: process_entry_def resolve_sp_def uc_arch_def dict_lookup_def uc_arch_table_def
      sp_table_def contains_def default_args_def initial_state_def hook_code_def call_tracking_def
      hook_mem_write_def call_detection_def ceiling_suppressed_def Let_def
      tracker_add_def addi_def merge_overlaps_def less_eq_prod_def mem_read_def)
qed

end
